theory Spec2Isabelle
  imports Complex_Main
begin

section \<open>The storage client of go-oracle-terraform\<close>

text \<open>
  A shallow embedding of \<^verbatim>\<open>storage/storage_client.go\<close>. Go strings are byte
  sequences and are modelled as \<open>string\<close>. A run-time panic (a nil pointer
  dereference, a failed type assertion) is the value \<open>Panic\<close> of the type
  \<open>'a result\<close>; a Go \<^verbatim>\<open>error\<close> is a value of the type \<open>error\<close>, and a pair
  \<^verbatim>\<open>(value, error)\<close> returned by a Go function is a sum with \<open>Inl\<close> for the error.
\<close>

subsection \<open>The library functions the file calls\<close>

datatype 'a result = Ret 'a | Panic

datatype error = Error string

text \<open>\<^verbatim>\<open>strings.HasPrefix(s, prefix)\<close>.\<close>

fun HasPrefix :: "string \<Rightarrow> string \<Rightarrow> bool" where
  "HasPrefix s [] = True"
| "HasPrefix [] (p # ps) = False"
| "HasPrefix (c # s) (p # ps) = (c = p \<and> HasPrefix s ps)"

text \<open>\<^verbatim>\<open>strings.Contains(s, substr)\<close>: some suffix of \<open>s\<close> starts with \<open>substr\<close>.\<close>

fun Contains :: "string \<Rightarrow> string \<Rightarrow> bool" where
  "Contains [] sub = (sub = [])"
| "Contains (c # s) sub = (HasPrefix (c # s) sub \<or> Contains s sub)"

text \<open>
  \<^verbatim>\<open>strings.Join(elems, sep)\<close>: the empty string for no element, the element itself
  for one, and otherwise the elements with \<open>sep\<close> between them.
\<close>

fun Join :: "string list \<Rightarrow> string \<Rightarrow> string" where
  "Join [] sep = []"
| "Join [x] sep = x"
| "Join (x # y # xs) sep = x @ sep @ Join (y # xs) sep"

text \<open>
  \<^verbatim>\<open>strings.Split(s, sep)\<close> cuts \<open>s\<close> at the leftmost occurrences of \<open>sep\<close>, which
  do not overlap. \<open>genSplit sep cur s k\<close> scans \<open>s\<close> from the left: \<open>cur\<close> is the
  piece read so far and \<open>k\<close> the number of bytes of a separator just found that
  are still to be skipped. With an empty separator Go cuts after every UTF-8
  sequence; the model cuts after every byte there, which is the same on ASCII
  (the file only splits at \<^verbatim>\<open>"/"\<close>).
\<close>

fun genSplit :: "string \<Rightarrow> string \<Rightarrow> string \<Rightarrow> nat \<Rightarrow> string list" where
  "genSplit sep cur [] k = [cur]"
| "genSplit sep cur (c # s) (Suc k) = genSplit sep cur s k"
| "genSplit sep cur (c # s) 0 =
     (if HasPrefix (c # s) sep then cur # genSplit sep [] s (length sep - 1)
      else genSplit sep (cur @ [c]) s 0)"

definition Split :: "string \<Rightarrow> string \<Rightarrow> string list" where
  "Split s sep = (if sep = [] then map (\<lambda>c. [c]) s else genSplit sep [] s 0)"

text \<open>
  \<^verbatim>\<open>strings.ToLower\<close> on ASCII: the letters \<^verbatim>\<open>A\<close> to \<^verbatim>\<open>Z\<close> move to \<^verbatim>\<open>a\<close> to \<^verbatim>\<open>z\<close>,
  every other byte stays (Go also lowers letters beyond ASCII; header names are
  ASCII tokens).
\<close>

definition toLowerByte :: "char \<Rightarrow> char" where
  "toLowerByte c =
     (let n = (of_char c :: nat) in if 65 \<le> n \<and> n \<le> 90 then char_of (n + 32) else c)"

definition ToLower :: "string \<Rightarrow> string" where
  "ToLower s = map toLowerByte s"

text \<open>
  \<^verbatim>\<open>fmt.Sprintf\<close> for the verbs \<^verbatim>\<open>%s\<close> and \<^verbatim>\<open>%v\<close> on string operands, the only
  ones the format strings of this file use: an operand replaces its verb, a verb
  with no operand left prints \<^verbatim>\<open>%!s(MISSING)\<close>, operands left over are listed
  after \<^verbatim>\<open>%!(EXTRA\<close>, a lone \<^verbatim>\<open>%\<close> at the end prints \<^verbatim>\<open>%!(NOVERB)\<close>. Every other
  byte of the format is copied.
\<close>

fun Sprintf :: "string \<Rightarrow> string list \<Rightarrow> string" where
  "Sprintf [] [] = []"
| "Sprintf [] (a # as) =
     ''%!(EXTRA '' @ Join (map (\<lambda>x. ''string='' @ x) (a # as)) '', '' @ '')''"
| "Sprintf [c] as =
     (if c = CHR ''%'' then ''%!(NOVERB)'' @ Sprintf [] as else c # Sprintf [] as)"
| "Sprintf (c # v # fmt) as =
     (if c = CHR ''%'' \<and> (v = CHR ''s'' \<or> v = CHR ''v'') then
        (case as of
           [] \<Rightarrow> ''%!'' @ [v] @ ''(MISSING)'' @ Sprintf fmt []
         | a # as' \<Rightarrow> a @ Sprintf fmt as')
      else c # Sprintf (v # fmt) as)"

text \<open>A \<^verbatim>\<open>[]string\<close> under \<^verbatim>\<open>%s\<close>: the elements between brackets, a space apart.\<close>

definition formatStrings :: "string list \<Rightarrow> string" where
  "formatStrings xs = ''['' @ Join xs '' '' @ '']''"

text \<open>
  \<^verbatim>\<open>time.Duration\<close> counts nanoseconds; \<^verbatim>\<open>Duration.Minutes()\<close> is the duration in
  minutes as a floating-point number. The model keeps the exact quotient. The
  code only compares it with 25, and the rounding of \<^verbatim>\<open>float64\<close> does not move a
  value across 25: one nanosecond is \<open>1.6e-11\<close> minutes, far above the spacing
  \<open>3.6e-15\<close> of the doubles next to 25.
\<close>

type_synonym Time = int
type_synonym Duration = int

definition Minute :: Duration where
  "Minute = 60 * 1000000000"

definition Minutes :: "Duration \<Rightarrow> real" where
  "Minutes d = real_of_int d / real_of_int Minute"

subsection \<open>Constants and data of the file\<close>

definition STR_ACCOUNT :: string where "STR_ACCOUNT = ''/Storage-%s''"
definition STR_USERNAME :: string where "STR_USERNAME = ''/Storage-%s:%s''"
definition AUTH_HEADER :: string where "AUTH_HEADER = ''X-Auth-Token''"
definition STR_QUALIFIED_NAME :: string where "STR_QUALIFIED_NAME = ''%s%s/%s''"
definition API_VERSION :: string where "API_VERSION = ''v1''"

text \<open>
  The fields of \<^verbatim>\<open>client.Client\<close> that the file reads are pointers to strings
  (\<open>None\<close> is nil); the record scheme leaves room for the others.
\<close>

record Client =
  IdentityDomain :: "string option"
  UserName :: "string option"

text \<open>
  \<^verbatim>\<open>StorageClient\<close>: the generic client, the token (\<open>None\<close> is nil) and the time it
  was issued. The zero \<^verbatim>\<open>time.Time\<close> is 0.
\<close>

record 'c StorageClient =
  client :: 'c
  authToken :: "string option"
  tokenIssued :: Time

subsection \<open>Names\<close>

definition getUserName :: "('m Client_scheme) StorageClient \<Rightarrow> string result" where
  "getUserName c =
     (case IdentityDomain (client c) of
        None \<Rightarrow> Panic
      | Some d \<Rightarrow>
          (case UserName (client c) of
             None \<Rightarrow> Panic
           | Some u \<Rightarrow> Ret (Sprintf STR_USERNAME [d, u])))"

definition getAccount :: "('m Client_scheme) StorageClient \<Rightarrow> string result" where
  "getAccount c =
     (case IdentityDomain (client c) of
        None \<Rightarrow> Panic
      | Some d \<Rightarrow> Ret (Sprintf STR_ACCOUNT [d]))"

definition getQualifiedName :: "('m Client_scheme) StorageClient \<Rightarrow> string \<Rightarrow> string result" where
  "getQualifiedName c name =
     (if name = [] then Ret []
      else if HasPrefix name ''/Storage-'' \<or> HasPrefix name (API_VERSION @ ''/'') then Ret name
      else
        (case getAccount c of
           Panic \<Rightarrow> Panic
         | Ret account \<Rightarrow> Ret (Sprintf STR_QUALIFIED_NAME [API_VERSION, account, name])))"

text \<open>
  \<^verbatim>\<open>nameParts[len(nameParts)-1:]\<close> is in range, as \<^verbatim>\<open>Split\<close> with a separator that
  is not empty returns at least one piece (lemma \<open>genSplit_not_Nil\<close>).
\<close>

definition getUnqualifiedName :: "string \<Rightarrow> string" where
  "getUnqualifiedName name =
     (if name = [] then name
      else if \<not> Contains name ''/'' then name
      else
        (let nameParts = Split name ''/''
         in Join (drop (length nameParts - 1) nameParts) ''/''))"

text \<open>
  \<^verbatim>\<open>unqualify(names ...*string)\<close> overwrites each string it is given a pointer to;
  the model returns the new contents in the same order.
\<close>

definition unqualify :: "string list \<Rightarrow> string list" where
  "unqualify names = map getUnqualifiedName names"

text \<open>Running a second call on the value a first one returned; a panic stays.\<close>

definition andThen :: "'a result \<Rightarrow> ('a \<Rightarrow> 'b result) \<Rightarrow> 'b result" where
  "andThen r f = (case r of Panic \<Rightarrow> Panic | Ret x \<Rightarrow> f x)"

subsection \<open>Requests\<close>

text \<open>
  The fields of the request that the file touches. \<open>URL\<close> is the text that
  \<^verbatim>\<open>%s\<close> prints for \<^verbatim>\<open>req.URL\<close>. \<open>Header\<close> lists the calls of
  \<^verbatim>\<open>req.Header.Add(key, value)\<close> in order, key and value as they were passed
  (\<^verbatim>\<open>net/http\<close> files the value under the canonical spelling of the key;
  \<^verbatim>\<open>X-Auth-Token\<close> is its own canonical spelling).
\<close>

record Request =
  Method :: string
  URL :: string
  Proto :: string
  Header :: "(string \<times> string) list"

definition Header_Add :: "Request \<Rightarrow> string \<Rightarrow> string \<Rightarrow> Request" where
  "Header_Add req k v = req\<lparr>Header := Header req @ [(k, v)]\<rparr>"

text \<open>
  The argument \<^verbatim>\<open>headers interface{}\<close>: nil, a \<^verbatim>\<open>map[string]string\<close>, or a value
  of any other dynamic type. The map is given by its entries in the order in
  which the \<^verbatim>\<open>range\<close> loop of this call visits them (Go leaves that order open).
\<close>

datatype headers = NilHeaders | MapHeaders "(string \<times> string) list" | OtherHeaders

text \<open>
  What the file calls on its collaborators, none of which is in this file:
  \<^verbatim>\<open>client.NewClient\<close>, the methods \<^verbatim>\<open>BuildNonJSONRequest\<close> and \<^verbatim>\<open>ExecuteRequest\<close>
  of the generic client, the clock behind \<^verbatim>\<open>time.Since\<close>, and the method
  \<^verbatim>\<open>getAuthenticationToken\<close> of the storage client. They are parameters of the
  model. \<open>'w\<close> is the state of everything outside the storage client (the
  service, the clock); the calls that may change it return the new one.
  \<^verbatim>\<open>getAuthenticationToken\<close> may write every field of the storage client.
\<close>

record ('cfg, 'c, 'b, 'r, 'w) env =
  NewClient :: "'cfg \<Rightarrow> error + 'c"
  BuildNonJSONRequest :: "'c \<Rightarrow> string \<Rightarrow> string \<Rightarrow> 'b option \<Rightarrow> error + Request"
  ExecuteRequest :: "'c \<Rightarrow> Request \<Rightarrow> 'w \<Rightarrow> (error + 'r) \<times> 'w"
  Since :: "'w \<Rightarrow> Time \<Rightarrow> Duration"
  getAuthenticationToken :: "'c StorageClient \<Rightarrow> 'w \<Rightarrow> error option \<times> 'c StorageClient \<times> 'w"

text \<open>
  The calls one activation of \<^verbatim>\<open>executeRequestBody\<close> makes itself, in order:
  the debug line with its text, the re-authentication with the error it
  returned (\<open>None\<close> is nil), the execution of the request with the request.
\<close>

datatype call =
  CallDebugLogString string
| CallGetAuthenticationToken "error option"
| CallExecuteRequest Request

text \<open>
  What a call leaves behind: what it returned (or that it panicked), the storage
  client and the outside world after it, and the calls it made.
\<close>

record ('c, 'r, 'w) run =
  returned :: "(error + 'r) result"
  storage :: "'c StorageClient"
  world :: 'w
  calls :: "call list"

subsection \<open>Construction\<close>

definition NewStorageClient ::
  "('cfg, 'c, 'b, 'r, 'w) env \<Rightarrow> 'cfg \<Rightarrow> 'w \<Rightarrow> (error + 'c StorageClient) \<times> 'w" where
  "NewStorageClient e c w =
     (case NewClient e c of
        Inl err \<Rightarrow> (Inl err, w)
      | Inr opcClient \<Rightarrow>
          (let sClient = \<lparr>client = opcClient, authToken = None, tokenIssued = 0\<rparr>
           in case getAuthenticationToken e sClient w of
                (Some err, sClient', w') \<Rightarrow> (Inl err, w')
              | (None, sClient', w') \<Rightarrow> (Inr sClient', w')))"

subsection \<open>Executing a request\<close>

text \<open>The \<^verbatim>\<open>range\<close> loop: each entry adds a debug line and a header.\<close>

fun rangeHeaders ::
  "(string \<times> string) list \<Rightarrow> Request \<Rightarrow> string list \<Rightarrow> Request \<times> string list" where
  "rangeHeaders [] req debugHeaders = (req, debugHeaders)"
| "rangeHeaders ((k, v) # kvs) req debugHeaders =
     rangeHeaders kvs (Header_Add req k v)
       (debugHeaders @ [Sprintf (''%v: %v'' @ [CHR 0x0A]) [ToLower k, v]])"

text \<open>Lines 58 to 66: the type assertion, the loop, the debug text.\<close>

definition addHeaders :: "headers \<Rightarrow> Request \<Rightarrow> string \<Rightarrow> (Request \<times> string) result" where
  "addHeaders hs req debugReqString =
     (case hs of
        NilHeaders \<Rightarrow> Ret (req, debugReqString)
      | OtherHeaders \<Rightarrow> Panic
      | MapHeaders kvs \<Rightarrow>
          (let (req', debugHeaders) = rangeHeaders kvs req []
           in Ret (req', Sprintf (''%s'' @ [CHR 0x0A] @ ''%s'')
                           [debugReqString, formatStrings debugHeaders])))"

text \<open>Lines 82 to 86.\<close>

definition send ::
  "('cfg, 'c, 'b, 'r, 'w) env \<Rightarrow> 'c StorageClient \<Rightarrow> 'w \<Rightarrow> call list \<Rightarrow> Request \<Rightarrow>
     ('c, 'r, 'w) run" where
  "send e c w cs req =
     (let (resp, w') = ExecuteRequest e (client c) req w
      in \<lparr>returned = Ret resp, storage = c, world = w', calls = cs @ [CallExecuteRequest req]\<rparr>)"

text \<open>
  Lines 68 to 86: the debug line, the token with its refresh, the execution.
  After a refresh that returned no error the code reads \<^verbatim>\<open>*c.authToken\<close>, which
  panics if the token is nil then.
\<close>

definition logAndSend ::
  "('cfg, 'c, 'b, 'r, 'w) env \<Rightarrow> 'c StorageClient \<Rightarrow> 'w \<Rightarrow> string \<Rightarrow> Request \<Rightarrow> string \<Rightarrow>
     ('c, 'r, 'w) run" where
  "logAndSend e c w path req debugReqString =
     (let cs = (if \<not> Contains path ''/auth/''
                then [CallDebugLogString debugReqString] else [])
      in case authToken c of
           None \<Rightarrow> send e c w cs req
         | Some tok \<Rightarrow>
             if Minutes (Since e w (tokenIssued c)) > 25 then
               (case getAuthenticationToken e c w of
                  (Some err, c', w') \<Rightarrow>
                    \<lparr>returned = Ret (Inl err), storage = c', world = w',
                     calls = cs @ [CallGetAuthenticationToken (Some err)]\<rparr>
                | (None, c', w') \<Rightarrow>
                    (case authToken c' of
                       None \<Rightarrow>
                         \<lparr>returned = Panic, storage = c', world = w',
                          calls = cs @ [CallGetAuthenticationToken None]\<rparr>
                     | Some tok' \<Rightarrow>
                         send e c' w' (cs @ [CallGetAuthenticationToken None])
                           (Header_Add req AUTH_HEADER tok')))
             else send e c w cs (Header_Add req AUTH_HEADER tok))"

text \<open>
  The whole function. An error of \<^verbatim>\<open>BuildNonJSONRequest\<close> is returned at once
  (lines 50 to 53); a panic ends the call with nothing returned.
\<close>

definition executeRequestBody ::
  "('cfg, 'c, 'b, 'r, 'w) env \<Rightarrow> 'c StorageClient \<Rightarrow> 'w \<Rightarrow>
     string \<Rightarrow> string \<Rightarrow> headers \<Rightarrow> 'b option \<Rightarrow> ('c, 'r, 'w) run" where
  "executeRequestBody e c w method path hs body =
     (case BuildNonJSONRequest e (client c) method path body of
        Inl err \<Rightarrow> \<lparr>returned = Ret (Inl err), storage = c, world = w, calls = []\<rparr>
      | Inr req \<Rightarrow>
          (case addHeaders hs req (Sprintf ''%s (%s) %s'' [Method req, URL req, Proto req]) of
             Panic \<Rightarrow> \<lparr>returned = Panic, storage = c, world = w, calls = []\<rparr>
           | Ret (req1, debugReqString) \<Rightarrow> logAndSend e c w path req1 debugReqString))"

text \<open>\<^verbatim>\<open>executeRequest\<close>: the same with a nil body.\<close>

definition executeRequest ::
  "('cfg, 'c, 'b, 'r, 'w) env \<Rightarrow> 'c StorageClient \<Rightarrow> 'w \<Rightarrow>
     string \<Rightarrow> string \<Rightarrow> headers \<Rightarrow> ('c, 'r, 'w) run" where
  "executeRequest e c w method path hs = executeRequestBody e c w method path hs None"

subsection \<open>Reading the calls of a run\<close>

fun isAuthCall :: "call \<Rightarrow> bool" where
  "isAuthCall (CallGetAuthenticationToken err) = True"
| "isAuthCall other = False"

fun isExecuteCall :: "call \<Rightarrow> bool" where
  "isExecuteCall (CallExecuteRequest req) = True"
| "isExecuteCall other = False"

text \<open>The number of re-authentications among the calls.\<close>

definition authCalls :: "call list \<Rightarrow> nat" where
  "authCalls cs = length (filter isAuthCall cs)"

text \<open>No request is executed before the first re-authentication.\<close>

definition authBeforeExecute :: "call list \<Rightarrow> bool" where
  "authBeforeExecute cs = (\<not> list_ex isExecuteCall (takeWhile (\<lambda>x. \<not> isAuthCall x) cs))"

text \<open>The requests that were executed, and the debug lines that were logged.\<close>

definition executed :: "call list \<Rightarrow> Request list" where
  "executed cs = concat (map (\<lambda>x. case x of CallExecuteRequest req \<Rightarrow> [req] | _ \<Rightarrow> []) cs)"

definition debugLines :: "call list \<Rightarrow> string list" where
  "debugLines cs = concat (map (\<lambda>x. case x of CallDebugLogString s \<Rightarrow> [s] | _ \<Rightarrow> []) cs)"

text \<open>
  The debug text for a built request and the argument \<^verbatim>\<open>headers\<close>: the request
  line, and for a map a second line with the entries between brackets, the keys
  in lower case.
\<close>

definition debugText :: "Request \<Rightarrow> headers \<Rightarrow> string" where
  "debugText req hs =
     (let line = Method req @ '' ('' @ URL req @ '') '' @ Proto req
      in case hs of
           MapHeaders kvs \<Rightarrow>
             line @ [CHR 0x0A] @ ''[''
               @ Join (map (\<lambda>(k, v). ToLower k @ '': '' @ v @ [CHR 0x0A]) kvs) '' '' @ '']''
         | _ \<Rightarrow> line)"

text \<open>The entries the caller passed, in the order of the loop.\<close>

fun callerHeaders :: "headers \<Rightarrow> (string \<times> string) list" where
  "callerHeaders NilHeaders = []"
| "callerHeaders (MapHeaders kvs) = kvs"
| "callerHeaders OtherHeaders = []"

subsection \<open>Sample data\<close>

text \<open>
  A client of the identity domain \<^verbatim>\<open>dom\<close>, without a token and with one issued
  at time 0, and collaborators to run the functions on: the world is the clock,
  in nanoseconds; building a request fails on a method with a space in it;
  authentication succeeds or fails as the flag says.
\<close>

definition client0 :: "Client StorageClient" where
  "client0 = \<lparr>client = \<lparr>IdentityDomain = Some ''dom'', UserName = Some ''user''\<rparr>,
     authToken = None, tokenIssued = 0\<rparr>"

definition client1 :: "Client StorageClient" where
  "client1 = \<lparr>client = \<lparr>IdentityDomain = Some ''dom'', UserName = Some ''user''\<rparr>,
     authToken = Some ''tok'', tokenIssued = 0\<rparr>"

definition minutes :: "int \<Rightarrow> int" where
  "minutes n = n * 60000000000"

definition sampleEnv :: "bool \<Rightarrow> (string, Client, string, nat, int) env" where
  "sampleEnv authOk =
     \<lparr>NewClient = (\<lambda>cfg. if cfg = [] then Inl (Error ''no identity domain'')
                     else Inr \<lparr>IdentityDomain = Some cfg, UserName = Some ''user''\<rparr>),
      BuildNonJSONRequest = (\<lambda>c method path body.
         if CHR '' '' \<in> set method then Inl (Error ''invalid method'')
         else Inr \<lparr>Method = method, URL = ''https://storage'' @ path, Proto = ''HTTP/1.1'',
                   Header = [(''User-Agent'', ''go'')]\<rparr>),
      ExecuteRequest = (\<lambda>c req w. (Inr 200, w)),
      Since = (\<lambda>w t. w - t),
      getAuthenticationToken = (\<lambda>c w.
         if authOk then (None, c\<lparr>authToken := Some ''fresh'', tokenIssued := w\<rparr>, w)
         else (Some (Error ''no token''), c, w))\<rparr>"

section \<open>Properties\<close>

subsection \<open>Strings\<close>

lemma HasPrefix_iff: "HasPrefix s p \<longleftrightarrow> (\<exists>r. s = p @ r)"
  by (induction s p rule: HasPrefix.induct) auto

lemma Contains_single: "Contains s [d] \<longleftrightarrow> d \<in> set s"
  by (induction s) auto

lemma genSplit_not_Nil: "genSplit sep cur s k \<noteq> []"
  by (induction sep cur s k rule: genSplit.induct) auto

lemma Sprintf_account: "Sprintf STR_ACCOUNT [d] = ''/Storage-'' @ d"
  by (simp add: STR_ACCOUNT_def)

lemma Sprintf_qualified:
  "Sprintf STR_QUALIFIED_NAME [v, a, n] = v @ a @ ''/'' @ n"
  by (simp add: STR_QUALIFIED_NAME_def)

lemma last_genSplit:
  "last (genSplit [d] cur s 0) =
     (if d \<in> set s then rev (takeWhile (\<lambda>c. c \<noteq> d) (rev s)) else cur @ s)"
proof (induction s arbitrary: cur)
  case Nil
  then show ?case by simp
next
  case (Cons c s)
  show ?case
  proof (cases "c = d")
    case True
    then show ?thesis
      using Cons.IH [of "[]"] by (simp add: genSplit_not_Nil takeWhile_append)
  next
    case False
    then show ?thesis
      using Cons.IH [of "cur @ [c]"] by (auto simp: takeWhile_append)
  qed
qed

lemma drop_last: "xs \<noteq> [] \<Longrightarrow> drop (length xs - Suc 0) xs = [last xs]"
  by (induction xs rule: rev_induct) auto

lemma getUnqualifiedName_last:
  "CHR ''/'' \<in> set name \<Longrightarrow>
     getUnqualifiedName name = rev (takeWhile (\<lambda>c. c \<noteq> CHR ''/'') (rev name))"
  by (auto simp: getUnqualifiedName_def Contains_single Split_def Let_def drop_last
      genSplit_not_Nil last_genSplit)

lemma cut_at_last:
  assumes "d \<in> set s"
  shows "\<exists>p. s = p @ [d] @ rev (takeWhile (\<lambda>c. c \<noteq> d) (rev s))"
proof -
  let ?P = "\<lambda>c. c \<noteq> d"
  have "dropWhile ?P (rev s) \<noteq> []" using assms by (simp add: dropWhile_eq_Nil_conv)
  moreover have "hd (dropWhile ?P (rev s)) = d"
    using calculation hd_dropWhile [of ?P "rev s"] by auto
  ultimately obtain t where t: "dropWhile ?P (rev s) = d # t"
    by (cases "dropWhile ?P (rev s)") auto
  have "rev s = takeWhile ?P (rev s) @ dropWhile ?P (rev s)" by simp
  then have "rev s = takeWhile ?P (rev s) @ d # t" using t by simp
  then have "s = rev (takeWhile ?P (rev s) @ d # t)" by (metis rev_rev_ident)
  then have "s = rev t @ [d] @ rev (takeWhile ?P (rev s))" by simp
  then show ?thesis by blast
qed

subsection \<open>The unqualified name\<close>

text \<open>
  Claim C5. \<^verbatim>\<open>getUnqualifiedName\<close> returns the empty string for the empty string, a
  name with no \<^verbatim>\<open>/\<close> as it is, and for a name with a \<^verbatim>\<open>/\<close> the part after the
  last one: the name is some prefix, a \<^verbatim>\<open>/\<close> and the result, and the result holds
  no \<^verbatim>\<open>/\<close>.
\<close>

theorem getUnqualifiedName_cases:
  "getUnqualifiedName [] = []
   \<and> (CHR ''/'' \<notin> set name \<longrightarrow> getUnqualifiedName name = name)
   \<and> (CHR ''/'' \<in> set name \<longrightarrow>
        (\<exists>p. name = p @ ''/'' @ getUnqualifiedName name)
        \<and> CHR ''/'' \<notin> set (getUnqualifiedName name))"
proof (intro conjI impI)
  show "getUnqualifiedName [] = []" by (simp add: getUnqualifiedName_def)
next
  assume "CHR ''/'' \<notin> set name"
  then show "getUnqualifiedName name = name"
    by (simp add: getUnqualifiedName_def Contains_single)
next
  assume h: "CHR ''/'' \<in> set name"
  show "\<exists>p. name = p @ ''/'' @ getUnqualifiedName name"
    using cut_at_last [OF h] by (simp add: getUnqualifiedName_last [OF h])
next
  assume h: "CHR ''/'' \<in> set name"
  show "CHR ''/'' \<notin> set (getUnqualifiedName name)"
    using set_takeWhileD [of "CHR ''/''" "\<lambda>c. c \<noteq> CHR ''/''" "rev name"]
    by (auto simp: getUnqualifiedName_last [OF h])
qed

theorem getUnqualifiedName_cases_witness:
  "CHR ''/'' \<notin> set ''noSlash'' \<and> getUnqualifiedName ''noSlash'' = ''noSlash''
   \<and> CHR ''/'' \<in> set ''a/b/c''
   \<and> (\<exists>p. ''a/b/c'' = p @ ''/'' @ getUnqualifiedName ''a/b/c'')
   \<and> CHR ''/'' \<notin> set (getUnqualifiedName ''a/b/c'')"
  using getUnqualifiedName_cases [of "''noSlash''"] getUnqualifiedName_cases [of "''a/b/c''"]
  by simp

lemma getUnqualifiedName_examples:
  "getUnqualifiedName [] = [] \<and> getUnqualifiedName ''noSlash'' = ''noSlash''
   \<and> getUnqualifiedName ''a/b/c'' = ''c'' \<and> getUnqualifiedName ''a/b/'' = []"
  by (simp add: getUnqualifiedName_def Split_def)

subsection \<open>The qualified name\<close>

text \<open>
  Claim C3. \<^verbatim>\<open>getQualifiedName\<close> returns the empty string for the empty string, a
  name that starts with \<^verbatim>\<open>/Storage-\<close> or with \<^verbatim>\<open>v1/\<close> as it is, and for every
  other name \<^verbatim>\<open>v1/Storage-\<close>, the identity domain of the client, \<^verbatim>\<open>/\<close> and the
  name.
\<close>

theorem getQualifiedName_cases:
  "getQualifiedName c [] = Ret []
   \<and> (name = ''/Storage-'' @ r \<or> name = ''v1/'' @ r \<longrightarrow> getQualifiedName c name = Ret name)
   \<and> (name \<noteq> [] \<and> (\<forall>r. name \<noteq> ''/Storage-'' @ r) \<and> (\<forall>r. name \<noteq> ''v1/'' @ r)
        \<and> IdentityDomain (client c) = Some d \<longrightarrow>
        getQualifiedName c name = Ret (''v1/Storage-'' @ d @ ''/'' @ name))"
proof (intro conjI impI)
  show "getQualifiedName c [] = Ret []" by (simp add: getQualifiedName_def)
next
  assume "name = ''/Storage-'' @ r \<or> name = ''v1/'' @ r"
  then have "HasPrefix name ''/Storage-'' \<or> HasPrefix name ''v1/''"
    using HasPrefix_iff by blast
  then show "getQualifiedName c name = Ret name"
    by (auto simp: getQualifiedName_def API_VERSION_def)
next
  assume h: "name \<noteq> [] \<and> (\<forall>r. name \<noteq> ''/Storage-'' @ r) \<and> (\<forall>r. name \<noteq> ''v1/'' @ r)
        \<and> IdentityDomain (client c) = Some d"
  then have "\<not> HasPrefix name ''/Storage-''" and "\<not> HasPrefix name ''v1/''"
    using HasPrefix_iff by blast+
  then show "getQualifiedName c name = Ret (''v1/Storage-'' @ d @ ''/'' @ name)"
    using h by (simp add: getQualifiedName_def getAccount_def API_VERSION_def
        Sprintf_account Sprintf_qualified)
qed

theorem getQualifiedName_cases_witness:
  "getQualifiedName client0 ''/Storage-x/y'' = Ret ''/Storage-x/y''
   \<and> getQualifiedName client0 ''v1/foo'' = Ret ''v1/foo''
   \<and> getQualifiedName client0 ''myobj'' = Ret ''v1/Storage-dom/myobj''"
proof -
  have 1: "''/Storage-x/y'' = ''/Storage-'' @ ''x/y'' \<or> ''/Storage-x/y'' = ''v1/'' @ ''x/y''" by simp
  have 2: "''v1/foo'' = ''/Storage-'' @ ''foo'' \<or> ''v1/foo'' = ''v1/'' @ ''foo''" by simp
  have 3: "''myobj'' \<noteq> [] \<and> (\<forall>r. ''myobj'' \<noteq> ''/Storage-'' @ r) \<and> (\<forall>r. ''myobj'' \<noteq> ''v1/'' @ r)
        \<and> IdentityDomain (client client0) = Some ''dom''" by (simp add: client0_def)
  show ?thesis
    using getQualifiedName_cases [of client0 "''/Storage-x/y''" "''x/y''" "''dom''"] 1
      getQualifiedName_cases [of client0 "''v1/foo''" "''foo''" "''dom''"] 2
      getQualifiedName_cases [of client0 "''myobj''" "[]" "''dom''"] 3
    by simp
qed

text \<open>A name that \<^verbatim>\<open>getQualifiedName\<close> returns is one it leaves as it is.\<close>

lemma getQualifiedName_fixed:
  "getQualifiedName c x = Ret y \<Longrightarrow> getQualifiedName c y = Ret y"
proof -
  assume a: "getQualifiedName c x = Ret y"
  show ?thesis
  proof (cases "x = [] \<or> HasPrefix x ''/Storage-'' \<or> HasPrefix x ''v1/''")
    case True
    then show ?thesis using a by (auto simp: getQualifiedName_def API_VERSION_def split: if_splits)
  next
    case False
    then obtain d where "y = ''v1'' @ (''/Storage-'' @ d) @ ''/'' @ x"
      using a by (auto simp: getQualifiedName_def getAccount_def API_VERSION_def
          Sprintf_account Sprintf_qualified split: option.splits)
    then show ?thesis by (simp add: getQualifiedName_def API_VERSION_def)
  qed
qed

text \<open>
  Claim C4. \<^verbatim>\<open>getQualifiedName\<close> is idempotent: qualifying the name it returned
  gives that name again (and where the first call panics on a nil identity
  domain, so does the composition).
\<close>

theorem getQualifiedName_idempotent:
  "andThen (getQualifiedName c x) (getQualifiedName c) = getQualifiedName c x"
  by (cases "getQualifiedName c x") (simp_all add: andThen_def getQualifiedName_fixed)

subsection \<open>Running a request\<close>

text \<open>
  More than 25 minutes on the clock is more than \<open>25 * Minute\<close> nanoseconds, and
  \<^verbatim>\<open>strings.Contains\<close> is the contiguous substring.
\<close>

lemma Minutes_gt_25: "25 < Minutes d \<longleftrightarrow> 25 * Minute < d"
  by (auto simp: Minutes_def Minute_def field_simps)

lemma Contains_iff: "Contains s sub \<longleftrightarrow> (\<exists>u v. s = u @ sub @ v)"
proof (induction s)
  case Nil
  then show ?case by auto
next
  case (Cons c s)
  show ?case
  proof
    assume "Contains (c # s) sub"
    then consider "HasPrefix (c # s) sub" | "Contains s sub" by auto
    then show "\<exists>u v. c # s = u @ sub @ v"
    proof cases
      case 1
      then obtain r where "c # s = sub @ r" using HasPrefix_iff by blast
      then have "c # s = [] @ sub @ r" by simp
      then show ?thesis by blast
    next
      case 2
      then obtain u v where "s = u @ sub @ v" using Cons.IH by blast
      then have "c # s = (c # u) @ sub @ v" by simp
      then show ?thesis by blast
    qed
  next
    assume "\<exists>u v. c # s = u @ sub @ v"
    then obtain u v where uv: "c # s = u @ sub @ v" by blast
    show "Contains (c # s) sub"
    proof (cases u)
      case Nil
      then have "HasPrefix (c # s) sub" using uv HasPrefix_iff by auto
      then show ?thesis by simp
    next
      case (Cons a u')
      then have "s = u' @ sub @ v" using uv by simp
      then have "Contains s sub" using Cons.IH by blast
      then show ?thesis by simp
    qed
  qed
qed

text \<open>
  The three ways through the function: the request is not built; it is built and
  the type assertion panics; it is built, the headers are added and the rest
  runs on the request with the caller's headers and on the debug text.
\<close>

lemma rangeHeaders_req:
  "fst (rangeHeaders kvs req dh) = req\<lparr>Header := Header req @ kvs\<rparr>"
  by (induction kvs req dh rule: rangeHeaders.induct) (auto simp: Header_Add_def)

lemma rangeHeaders_debug:
  "snd (rangeHeaders kvs req dh) =
     dh @ map (\<lambda>(k, v). ToLower k @ '': '' @ v @ [CHR 0x0A]) kvs"
  by (induction kvs req dh rule: rangeHeaders.induct) auto

lemma Sprintf_request_line: "Sprintf ''%s (%s) %s'' [m, u, p] = m @ '' ('' @ u @ '') '' @ p"
  by simp

lemma addHeaders_Ret:
  assumes "hs \<noteq> OtherHeaders"
  shows "addHeaders hs req (Sprintf ''%s (%s) %s'' [Method req, URL req, Proto req]) =
           Ret (req\<lparr>Header := Header req @ callerHeaders hs\<rparr>, debugText req hs)"
proof (cases hs)
  case NilHeaders
  then show ?thesis by (simp add: addHeaders_def debugText_def)
next
  case (MapHeaders kvs)
  obtain r dh where r: "rangeHeaders kvs req [] = (r, dh)" by (cases "rangeHeaders kvs req []")
  then have "r = req\<lparr>Header := Header req @ kvs\<rparr>"
    using rangeHeaders_req [of kvs req "[]"] by simp
  moreover have "dh = map (\<lambda>(k, v). ToLower k @ '': '' @ v @ [CHR 0x0A]) kvs"
    using r rangeHeaders_debug [of kvs req "[]"] by simp
  ultimately show ?thesis
    using r MapHeaders by (simp add: addHeaders_def debugText_def formatStrings_def)
next
  case OtherHeaders
  then show ?thesis using assms by simp
qed

lemma executeRequestBody_build_error:
  "BuildNonJSONRequest e (client c) method path body = Inl err \<Longrightarrow>
     executeRequestBody e c w method path hs body =
       \<lparr>returned = Ret (Inl err), storage = c, world = w, calls = []\<rparr>"
  by (simp add: executeRequestBody_def)

lemma executeRequestBody_assertion_panics:
  "BuildNonJSONRequest e (client c) method path body = Inr req \<Longrightarrow>
     executeRequestBody e c w method path OtherHeaders body =
       \<lparr>returned = Panic, storage = c, world = w, calls = []\<rparr>"
  by (simp add: executeRequestBody_def addHeaders_def)

lemma executeRequestBody_built_text:
  assumes "BuildNonJSONRequest e (client c) method path body = Inr req" and "hs \<noteq> OtherHeaders"
  shows "executeRequestBody e c w method path hs body =
           logAndSend e c w path (req\<lparr>Header := Header req @ callerHeaders hs\<rparr>)
             (debugText req hs)"
  using assms(1) addHeaders_Ret [OF assms(2), of req] by (simp add: executeRequestBody_def)

lemma executeRequestBody_built:
  assumes "BuildNonJSONRequest e (client c) method path body = Inr req" and "hs \<noteq> OtherHeaders"
  shows "\<exists>s. executeRequestBody e c w method path hs body =
           logAndSend e c w path (req\<lparr>Header := Header req @ callerHeaders hs\<rparr>) s"
  using executeRequestBody_built_text [OF assms] by blast

lemma calls_send: "calls (send e c w cs req) = cs @ [CallExecuteRequest req]"
  by (simp add: send_def split: prod.splits)

lemma authCalls_simps:
  "authCalls [] = 0"
  "authCalls (CallDebugLogString s # cs) = authCalls cs"
  "authCalls (CallExecuteRequest r # cs) = authCalls cs"
  "authCalls (CallGetAuthenticationToken x # cs) = Suc (authCalls cs)"
  "authCalls (cs @ cs') = authCalls cs + authCalls cs'"
  by (simp_all add: authCalls_def)

lemma logAndSend_fresh:
  "authToken c = None \<or> \<not> 25 < Minutes (Since e w (tokenIssued c)) \<Longrightarrow>
     authCalls (calls (logAndSend e c w path req1 s)) = 0"
  by (auto simp: logAndSend_def calls_send authCalls_simps Let_def split: option.splits)

lemma logAndSend_stale:
  "authToken c = Some tok \<Longrightarrow> 25 < Minutes (Since e w (tokenIssued c)) \<Longrightarrow>
     authCalls (calls (logAndSend e c w path req1 s)) = 1
     \<and> authBeforeExecute (calls (logAndSend e c w path req1 s))"
  by (auto simp: logAndSend_def calls_send authCalls_simps authBeforeExecute_def Let_def
      split: option.splits prod.splits)

lemma authCalls_executeRequestBody_fresh:
  assumes "authToken c = None \<or> \<not> 25 < Minutes (Since e w (tokenIssued c))"
  shows "authCalls (calls (executeRequestBody e c w method path hs body)) = 0"
proof (cases "BuildNonJSONRequest e (client c) method path body")
  case (Inl err)
  then show ?thesis by (simp add: executeRequestBody_build_error authCalls_simps)
next
  case (Inr req)
  show ?thesis
  proof (cases "hs = OtherHeaders")
    case True
    then show ?thesis using Inr by (simp add: executeRequestBody_assertion_panics authCalls_simps)
  next
    case False
    then show ?thesis
      using executeRequestBody_built [OF Inr False, of w] logAndSend_fresh [OF assms, of path]
      by auto
  qed
qed

text \<open>The definitions to unfold for running the functions on the sample data.\<close>

lemmas sample_defs = sampleEnv_def client0_def client1_def minutes_def Minutes_def Minute_def

lemmas run_defs = executeRequestBody_def addHeaders_def logAndSend_def send_def Header_Add_def
  AUTH_HEADER_def

subsection \<open>The token refresh\<close>

text \<open>
  Claim C1, as amended. On a client holding a token: if at most 25 minutes have
  passed since the token was issued, the call makes no re-authentication call;
  if more than 25 minutes have passed, the request was built and the argument
  \<^verbatim>\<open>headers\<close> is nil or a \<^verbatim>\<open>map[string]string\<close>, the call makes exactly one, and
  no request is executed before it.
\<close>

theorem token_refresh:
  "(authToken c = Some tok \<and> Minutes (Since e w (tokenIssued c)) \<le> 25 \<longrightarrow>
      authCalls (calls (executeRequestBody e c w method path hs body)) = 0)
   \<and> (authToken c = Some tok \<and> 25 < Minutes (Since e w (tokenIssued c))
        \<and> BuildNonJSONRequest e (client c) method path body = Inr req \<and> hs \<noteq> OtherHeaders \<longrightarrow>
      authCalls (calls (executeRequestBody e c w method path hs body)) = 1
      \<and> authBeforeExecute (calls (executeRequestBody e c w method path hs body)))"
proof (rule conjI; rule impI)
  assume "authToken c = Some tok \<and> Minutes (Since e w (tokenIssued c)) \<le> 25"
  then have "authToken c = None \<or> \<not> 25 < Minutes (Since e w (tokenIssued c))" by simp
  then show "authCalls (calls (executeRequestBody e c w method path hs body)) = 0"
    by (rule authCalls_executeRequestBody_fresh)
next
  assume h: "authToken c = Some tok \<and> 25 < Minutes (Since e w (tokenIssued c))
        \<and> BuildNonJSONRequest e (client c) method path body = Inr req \<and> hs \<noteq> OtherHeaders"
  then obtain s where "executeRequestBody e c w method path hs body =
           logAndSend e c w path (req\<lparr>Header := Header req @ callerHeaders hs\<rparr>) s"
    using executeRequestBody_built [of e c "method" "path" body req hs w] by auto
  then show "authCalls (calls (executeRequestBody e c w method path hs body)) = 1
      \<and> authBeforeExecute (calls (executeRequestBody e c w method path hs body))"
    using h logAndSend_stale [of c tok e w] by simp
qed

text \<open>
  Claim C1 as it is written fails where the request cannot be built: the token
  is 30 minutes old, the call returns the error of \<^verbatim>\<open>BuildNonJSONRequest\<close> and has
  made no re-authentication call.
\<close>

theorem token_refresh_counterexample:
  "authToken client1 = Some ''tok''
   \<and> 25 < Minutes (Since (sampleEnv True) (minutes 30) (tokenIssued client1))
   \<and> authCalls (calls (executeRequestBody (sampleEnv True) client1 (minutes 30)
         ''BAD METHOD'' ''/v1/x'' NilHeaders None)) = 0"
  by (simp add: sample_defs run_defs authCalls_def)

theorem token_refresh_witness:
  "authToken client1 = Some ''tok''
   \<and> Minutes (Since (sampleEnv True) (minutes 10) (tokenIssued client1)) \<le> 25
   \<and> authCalls (calls (executeRequestBody (sampleEnv True) client1 (minutes 10)
         ''GET'' ''/v1/x'' NilHeaders None)) = 0
   \<and> 25 < Minutes (Since (sampleEnv True) (minutes 30) (tokenIssued client1))
   \<and> BuildNonJSONRequest (sampleEnv True) (client client1) ''GET'' ''/v1/x'' None =
        Inr \<lparr>Method = ''GET'', URL = ''https://storage/v1/x'', Proto = ''HTTP/1.1'',
             Header = [(''User-Agent'', ''go'')]\<rparr>
   \<and> NilHeaders \<noteq> OtherHeaders
   \<and> authCalls (calls (executeRequestBody (sampleEnv True) client1 (minutes 30)
         ''GET'' ''/v1/x'' NilHeaders None)) = 1
   \<and> authBeforeExecute (calls (executeRequestBody (sampleEnv True) client1 (minutes 30)
         ''GET'' ''/v1/x'' NilHeaders None))"
proof -
  have a: "authToken client1 = Some ''tok''" by (simp add: client1_def)
  have f: "Minutes (Since (sampleEnv True) (minutes 10) (tokenIssued client1)) \<le> 25"
    by (simp add: sample_defs)
  have s: "25 < Minutes (Since (sampleEnv True) (minutes 30) (tokenIssued client1))"
    by (simp add: sample_defs)
  have b: "BuildNonJSONRequest (sampleEnv True) (client client1) ''GET'' ''/v1/x'' None =
        Inr \<lparr>Method = ''GET'', URL = ''https://storage/v1/x'', Proto = ''HTTP/1.1'',
             Header = [(''User-Agent'', ''go'')]\<rparr>"
    by (simp add: sample_defs)
  show ?thesis
    using a f s b
      token_refresh [where c = client1 and tok = "''tok''" and e = "sampleEnv True"
        and w = "minutes 10" and path = "''/v1/x''" and hs = NilHeaders
        and body = None, of "''GET''"]
      token_refresh [where c = client1 and tok = "''tok''" and e = "sampleEnv True"
        and w = "minutes 30" and path = "''/v1/x''" and hs = NilHeaders
        and body = None
        and req = "\<lparr>Method = ''GET'', URL = ''https://storage/v1/x'', Proto = ''HTTP/1.1'',
             Header = [(''User-Agent'', ''go'')]\<rparr>", of "''GET''"]
    by simp
qed

lemma executed_simps:
  "executed [] = []"
  "executed (CallDebugLogString s # cs) = executed cs"
  "executed (CallExecuteRequest r # cs) = r # executed cs"
  "executed (CallGetAuthenticationToken x # cs) = executed cs"
  "executed (cs @ cs') = executed cs @ executed cs'"
  by (simp_all add: executed_def)

lemma debugLines_simps:
  "debugLines [] = []"
  "debugLines (CallDebugLogString s # cs) = s # debugLines cs"
  "debugLines (CallExecuteRequest r # cs) = debugLines cs"
  "debugLines (CallGetAuthenticationToken x # cs) = debugLines cs"
  "debugLines (cs @ cs') = debugLines cs @ debugLines cs'"
  by (simp_all add: debugLines_def)

lemma logAndSend_failure:
  "CallGetAuthenticationToken (Some err) \<in> set (calls (logAndSend e c w path req1 s)) \<Longrightarrow>
     returned (logAndSend e c w path req1 s) = Ret (Inl err)
     \<and> executed (calls (logAndSend e c w path req1 s)) = []"
  by (auto simp: logAndSend_def calls_send executed_simps Let_def
      split: option.splits prod.splits if_splits)

lemma logAndSend_failure_recorded:
  "authToken c = Some tok \<Longrightarrow> 25 < Minutes (Since e w (tokenIssued c)) \<Longrightarrow>
   fst (getAuthenticationToken e c w) = Some err \<Longrightarrow>
     CallGetAuthenticationToken (Some err) \<in> set (calls (logAndSend e c w path req1 s))"
  by (auto simp: logAndSend_def Let_def split: option.splits prod.splits)

subsection \<open>A refresh that fails\<close>

text \<open>
  Claim C2. A call whose re-authentication returned an error returns that error
  and executes no request. The second half says when that happens: the request
  was built, the headers are nil or a map, a token is held, it is more than 25
  minutes old and \<^verbatim>\<open>getAuthenticationToken\<close> returns the error.
\<close>

theorem reauthentication_failure_aborts:
  "(CallGetAuthenticationToken (Some err)
      \<in> set (calls (executeRequestBody e c w method path hs body)) \<longrightarrow>
      returned (executeRequestBody e c w method path hs body) = Ret (Inl err)
      \<and> executed (calls (executeRequestBody e c w method path hs body)) = [])
   \<and> (BuildNonJSONRequest e (client c) method path body = Inr req \<and> hs \<noteq> OtherHeaders
        \<and> authToken c = Some tok \<and> 25 < Minutes (Since e w (tokenIssued c))
        \<and> fst (getAuthenticationToken e c w) = Some err \<longrightarrow>
      CallGetAuthenticationToken (Some err)
        \<in> set (calls (executeRequestBody e c w method path hs body)))"
proof (rule conjI; rule impI)
  assume h: "CallGetAuthenticationToken (Some err)
      \<in> set (calls (executeRequestBody e c w method path hs body))"
  show "returned (executeRequestBody e c w method path hs body) = Ret (Inl err)
      \<and> executed (calls (executeRequestBody e c w method path hs body)) = []"
  proof (cases "BuildNonJSONRequest e (client c) method path body")
    case (Inl err')
    then show ?thesis using h by (simp add: executeRequestBody_build_error)
  next
    case (Inr req')
    show ?thesis
    proof (cases "hs = OtherHeaders")
      case True
      then show ?thesis using h Inr by (simp add: executeRequestBody_assertion_panics)
    next
      case False
      obtain s where "executeRequestBody e c w method path hs body =
           logAndSend e c w path (req'\<lparr>Header := Header req' @ callerHeaders hs\<rparr>) s"
        using executeRequestBody_built [OF Inr False, of w] by auto
      then show ?thesis using h logAndSend_failure [of err e c w path] by simp
    qed
  qed
next
  assume h: "BuildNonJSONRequest e (client c) method path body = Inr req \<and> hs \<noteq> OtherHeaders
        \<and> authToken c = Some tok \<and> 25 < Minutes (Since e w (tokenIssued c))
        \<and> fst (getAuthenticationToken e c w) = Some err"
  then obtain s where "executeRequestBody e c w method path hs body =
           logAndSend e c w path (req\<lparr>Header := Header req @ callerHeaders hs\<rparr>) s"
    using executeRequestBody_built [of e c "method" "path" body req hs w] by auto
  then show "CallGetAuthenticationToken (Some err)
        \<in> set (calls (executeRequestBody e c w method path hs body))"
    using h logAndSend_failure_recorded [of c tok e w err path] by simp
qed

theorem reauthentication_failure_aborts_witness:
  "CallGetAuthenticationToken (Some (Error ''no token''))
      \<in> set (calls (executeRequestBody (sampleEnv False) client1 (minutes 30)
            ''GET'' ''/v1/x'' NilHeaders None))
   \<and> returned (executeRequestBody (sampleEnv False) client1 (minutes 30)
         ''GET'' ''/v1/x'' NilHeaders None) = Ret (Inl (Error ''no token''))
   \<and> executed (calls (executeRequestBody (sampleEnv False) client1 (minutes 30)
         ''GET'' ''/v1/x'' NilHeaders None)) = []"
proof -
  have b: "BuildNonJSONRequest (sampleEnv False) (client client1) ''GET'' ''/v1/x'' None =
        Inr \<lparr>Method = ''GET'', URL = ''https://storage/v1/x'', Proto = ''HTTP/1.1'',
             Header = [(''User-Agent'', ''go'')]\<rparr>
      \<and> NilHeaders \<noteq> OtherHeaders
      \<and> authToken client1 = Some ''tok''
      \<and> 25 < Minutes (Since (sampleEnv False) (minutes 30) (tokenIssued client1))
      \<and> fst (getAuthenticationToken (sampleEnv False) client1 (minutes 30))
          = Some (Error ''no token'')"
    by (simp add: sample_defs)
  show ?thesis
    using b reauthentication_failure_aborts [where e = "sampleEnv False" and c = client1
        and w = "minutes 30" and path = "''/v1/x''" and hs = NilHeaders
        and body = None and tok = "''tok''" and err = "Error ''no token''"
        and req = "\<lparr>Method = ''GET'', URL = ''https://storage/v1/x'', Proto = ''HTTP/1.1'',
             Header = [(''User-Agent'', ''go'')]\<rparr>", of "''GET''"]
    by blast
qed

subsection \<open>The header of the token\<close>

lemma executed_send: "executed (calls (send e c w cs req)) = executed cs @ [req]"
  by (simp add: calls_send executed_simps)

lemma executed_logAndSend:
  "executed (calls (logAndSend e c w path req1 s)) =
     (case authToken c of
        None \<Rightarrow> [req1]
      | Some tok \<Rightarrow>
          if 25 < Minutes (Since e w (tokenIssued c)) then
            (case getAuthenticationToken e c w of
               (Some err, c', w') \<Rightarrow> []
             | (None, c', w') \<Rightarrow>
                 (case authToken c' of
                    None \<Rightarrow> []
                  | Some tok' \<Rightarrow> [req1\<lparr>Header := Header req1 @ [(AUTH_HEADER, tok')]\<rparr>]))
          else [req1\<lparr>Header := Header req1 @ [(AUTH_HEADER, tok)]\<rparr>])"
  by (simp add: logAndSend_def executed_send executed_simps Let_def Header_Add_def
      split: option.splits prod.splits)

text \<open>
  Claim C6 as it is written fails where the caller passes the header itself: the
  client holds no token, and the request executed carries \<^verbatim>\<open>X-Auth-Token\<close>, added
  by the loop over the caller's headers.
\<close>

theorem auth_header_counterexample:
  "authToken client0 = None
   \<and> executed (calls (executeRequestBody (sampleEnv True) client0 (minutes 30)
        ''GET'' ''/v1/x'' (MapHeaders [(AUTH_HEADER, ''forged'')]) None)) =
       [\<lparr>Method = ''GET'', URL = ''https://storage/v1/x'', Proto = ''HTTP/1.1'',
         Header = [(''User-Agent'', ''go''), (''X-Auth-Token'', ''forged'')]\<rparr>]"
  by (simp add: sample_defs run_defs executed_def)

text \<open>
  Claim C6, as amended. For a request that was built and headers that are nil or
  a map: with no token held the request executed carries the headers it was
  built with and then the caller's, and nothing else; with a token held and at
  most 25 minutes old it carries one more, added last, \<^verbatim>\<open>X-Auth-Token\<close> with the
  token; with a token more than 25 minutes old and a refresh that returns no
  error and leaves a token, that last header carries the token left by the
  refresh.
\<close>

theorem auth_header:
  assumes "BuildNonJSONRequest e (client c) method path body = Inr req"
    and "hs \<noteq> OtherHeaders"
  shows "(authToken c = None \<longrightarrow>
            executed (calls (executeRequestBody e c w method path hs body)) =
              [req\<lparr>Header := Header req @ callerHeaders hs\<rparr>])
    \<and> (authToken c = Some tok \<and> Minutes (Since e w (tokenIssued c)) \<le> 25 \<longrightarrow>
            executed (calls (executeRequestBody e c w method path hs body)) =
              [req\<lparr>Header := Header req @ callerHeaders hs @ [(AUTH_HEADER, tok)]\<rparr>])
    \<and> (authToken c = Some tok \<and> 25 < Minutes (Since e w (tokenIssued c))
         \<and> getAuthenticationToken e c w = (None, c', w') \<and> authToken c' = Some tok' \<longrightarrow>
            executed (calls (executeRequestBody e c w method path hs body)) =
              [req\<lparr>Header := Header req @ callerHeaders hs @ [(AUTH_HEADER, tok')]\<rparr>])"
proof -
  obtain s where "executeRequestBody e c w method path hs body =
           logAndSend e c w path (req\<lparr>Header := Header req @ callerHeaders hs\<rparr>) s"
    using executeRequestBody_built [OF assms, of w] by auto
  then show ?thesis by (auto simp: executed_logAndSend)
qed

theorem auth_header_witness:
  "BuildNonJSONRequest (sampleEnv True) (client client0) ''GET'' ''/v1/x'' None =
        Inr \<lparr>Method = ''GET'', URL = ''https://storage/v1/x'', Proto = ''HTTP/1.1'',
             Header = [(''User-Agent'', ''go'')]\<rparr>
   \<and> MapHeaders [(''X-Meta'', ''1'')] \<noteq> OtherHeaders
   \<and> authToken client0 = None
   \<and> executed (calls (executeRequestBody (sampleEnv True) client0 (minutes 30)
        ''GET'' ''/v1/x'' (MapHeaders [(''X-Meta'', ''1'')]) None)) =
       [\<lparr>Method = ''GET'', URL = ''https://storage/v1/x'', Proto = ''HTTP/1.1'',
         Header = [(''User-Agent'', ''go''), (''X-Meta'', ''1'')]\<rparr>]
   \<and> authToken client1 = Some ''tok''
   \<and> Minutes (Since (sampleEnv True) (minutes 10) (tokenIssued client1)) \<le> 25
   \<and> executed (calls (executeRequestBody (sampleEnv True) client1 (minutes 10)
        ''GET'' ''/v1/x'' (MapHeaders [(''X-Meta'', ''1'')]) None)) =
       [\<lparr>Method = ''GET'', URL = ''https://storage/v1/x'', Proto = ''HTTP/1.1'',
         Header = [(''User-Agent'', ''go''), (''X-Meta'', ''1''), (''X-Auth-Token'', ''tok'')]\<rparr>]
   \<and> 25 < Minutes (Since (sampleEnv True) (minutes 30) (tokenIssued client1))
   \<and> getAuthenticationToken (sampleEnv True) client1 (minutes 30) =
        (None, client1\<lparr>authToken := Some ''fresh'', tokenIssued := minutes 30\<rparr>, minutes 30)
   \<and> executed (calls (executeRequestBody (sampleEnv True) client1 (minutes 30)
        ''GET'' ''/v1/x'' (MapHeaders [(''X-Meta'', ''1'')]) None)) =
       [\<lparr>Method = ''GET'', URL = ''https://storage/v1/x'', Proto = ''HTTP/1.1'',
         Header = [(''User-Agent'', ''go''), (''X-Meta'', ''1''), (''X-Auth-Token'', ''fresh'')]\<rparr>]"
proof -
  let ?req = "\<lparr>Method = ''GET'', URL = ''https://storage/v1/x'', Proto = ''HTTP/1.1'',
             Header = [(''User-Agent'', ''go'')]\<rparr>"
  let ?hs = "MapHeaders [(''X-Meta'', ''1'')]"
  have b0: "BuildNonJSONRequest (sampleEnv True) (client client0) ''GET'' ''/v1/x'' None = Inr ?req"
    by (simp add: sample_defs)
  have b1: "BuildNonJSONRequest (sampleEnv True) (client client1) ''GET'' ''/v1/x'' None = Inr ?req"
    by (simp add: sample_defs)
  have h: "?hs \<noteq> OtherHeaders" by simp
  have t0: "authToken client0 = None" by (simp add: client0_def)
  have t1: "authToken client1 = Some ''tok''" by (simp add: client1_def)
  have f: "Minutes (Since (sampleEnv True) (minutes 10) (tokenIssued client1)) \<le> 25"
    by (simp add: sample_defs)
  have s: "25 < Minutes (Since (sampleEnv True) (minutes 30) (tokenIssued client1))"
    by (simp add: sample_defs)
  have g: "getAuthenticationToken (sampleEnv True) client1 (minutes 30) =
        (None, client1\<lparr>authToken := Some ''fresh'', tokenIssued := minutes 30\<rparr>, minutes 30)"
    by (simp add: sample_defs)
  have g': "authToken (client1\<lparr>authToken := Some ''fresh'', tokenIssued := minutes 30\<rparr>)
      = Some ''fresh''" by simp
  show ?thesis
    using b0 h t0 t1 f s g
      auth_header [OF b0 h, where w = "minutes 30"]
      auth_header [OF b1 h, where w = "minutes 10" and tok = "''tok''"]
      auth_header [OF b1 h, where w = "minutes 30" and tok = "''tok''" and tok' = "''fresh''"
        and c' = "client1\<lparr>authToken := Some ''fresh'', tokenIssued := minutes 30\<rparr>"
        and w' = "minutes 30"]
    by (simp add: AUTH_HEADER_def)
qed

subsection \<open>The debug line\<close>

lemma debugLines_logAndSend:
  "debugLines (calls (logAndSend e c w path req1 s)) =
     (if Contains path ''/auth/'' then [] else [s])"
  by (simp add: logAndSend_def calls_send debugLines_simps Let_def
      split: option.splits prod.splits)

text \<open>
  Claim C7 as it is written fails where the request cannot be built: the path
  does not contain \<^verbatim>\<open>/auth/\<close> and no debug line is logged.
\<close>

theorem debug_line_counterexample:
  "\<not> Contains ''/v1/x'' ''/auth/''
   \<and> debugLines (calls (executeRequestBody (sampleEnv True) client0 (minutes 30)
        ''BAD METHOD'' ''/v1/x'' NilHeaders None)) = []"
  by (simp add: sample_defs run_defs debugLines_def)

text \<open>
  Claim C7, as amended. A call whose path contains \<^verbatim>\<open>/auth/\<close> logs no debug line.
  A call whose path does not contain it, whose request was built and whose
  headers are nil or a map logs exactly one, the debug text of the request and
  the headers.
\<close>

theorem debug_line:
  "(Contains path ''/auth/'' \<longrightarrow>
      debugLines (calls (executeRequestBody e c w method path hs body)) = [])
   \<and> (\<not> Contains path ''/auth/''
        \<and> BuildNonJSONRequest e (client c) method path body = Inr req \<and> hs \<noteq> OtherHeaders \<longrightarrow>
      debugLines (calls (executeRequestBody e c w method path hs body)) = [debugText req hs])"
proof (rule conjI; rule impI)
  assume h: "Contains path ''/auth/''"
  show "debugLines (calls (executeRequestBody e c w method path hs body)) = []"
  proof (cases "BuildNonJSONRequest e (client c) method path body")
    case (Inl err)
    then show ?thesis by (simp add: executeRequestBody_build_error debugLines_simps)
  next
    case (Inr req')
    show ?thesis
    proof (cases "hs = OtherHeaders")
      case True
      then show ?thesis
        using Inr by (simp add: executeRequestBody_assertion_panics debugLines_simps)
    next
      case False
      obtain s where "executeRequestBody e c w method path hs body =
           logAndSend e c w path (req'\<lparr>Header := Header req' @ callerHeaders hs\<rparr>) s"
        using executeRequestBody_built [OF Inr False, of w] by auto
      then show ?thesis using h by (simp add: debugLines_logAndSend)
    qed
  qed
next
  assume h: "\<not> Contains path ''/auth/''
        \<and> BuildNonJSONRequest e (client c) method path body = Inr req \<and> hs \<noteq> OtherHeaders"
  then have "executeRequestBody e c w method path hs body =
           logAndSend e c w path (req\<lparr>Header := Header req @ callerHeaders hs\<rparr>)
             (debugText req hs)"
    using executeRequestBody_built_text [of e c "method" "path" body req hs w] by auto
  then show "debugLines (calls (executeRequestBody e c w method path hs body)) =
      [debugText req hs]"
    using h by (simp add: debugLines_logAndSend)
qed

theorem debug_line_witness:
  "Contains ''/auth/v1.0'' ''/auth/''
   \<and> debugLines (calls (executeRequestBody (sampleEnv True) client0 (minutes 30)
        ''GET'' ''/auth/v1.0'' (MapHeaders [(''X-Auth-Key'', ''secret'')]) None)) = []
   \<and> \<not> Contains ''/v1/x'' ''/auth/''
   \<and> BuildNonJSONRequest (sampleEnv True) (client client0) ''GET'' ''/v1/x'' None =
        Inr \<lparr>Method = ''GET'', URL = ''https://storage/v1/x'', Proto = ''HTTP/1.1'',
             Header = [(''User-Agent'', ''go'')]\<rparr>
   \<and> MapHeaders [(''X-Meta'', ''1'')] \<noteq> OtherHeaders
   \<and> debugLines (calls (executeRequestBody (sampleEnv True) client0 (minutes 30)
        ''GET'' ''/v1/x'' (MapHeaders [(''X-Meta'', ''1'')]) None)) =
       [''GET (https://storage/v1/x) HTTP/1.1'' @ [CHR 0x0A] @ ''[x-meta: 1'' @ [CHR 0x0A] @ '']'']"
proof -
  have a: "Contains ''/auth/v1.0'' ''/auth/''" by simp
  have n: "\<not> Contains ''/v1/x'' ''/auth/''" by simp
  have b: "BuildNonJSONRequest (sampleEnv True) (client client0) ''GET'' ''/v1/x'' None =
        Inr \<lparr>Method = ''GET'', URL = ''https://storage/v1/x'', Proto = ''HTTP/1.1'',
             Header = [(''User-Agent'', ''go'')]\<rparr>"
    by (simp add: sample_defs)
  have h: "MapHeaders [(''X-Meta'', ''1'')] \<noteq> OtherHeaders" by simp
  have t: "debugText \<lparr>Method = ''GET'', URL = ''https://storage/v1/x'', Proto = ''HTTP/1.1'',
             Header = [(''User-Agent'', ''go'')]\<rparr> (MapHeaders [(''X-Meta'', ''1'')]) =
       ''GET (https://storage/v1/x) HTTP/1.1'' @ [CHR 0x0A] @ ''[x-meta: 1'' @ [CHR 0x0A] @ '']''"
    by code_simp
  show ?thesis
    using a n b h t
      debug_line [where path = "''/auth/v1.0''" and e = "sampleEnv True" and c = client0
        and w = "minutes 30" and body = None
        and hs = "MapHeaders [(''X-Auth-Key'', ''secret'')]", of "''GET''"]
      debug_line [where path = "''/v1/x''" and e = "sampleEnv True" and c = client0
        and w = "minutes 30" and body = None
        and hs = "MapHeaders [(''X-Meta'', ''1'')]"
        and req = "\<lparr>Method = ''GET'', URL = ''https://storage/v1/x'', Proto = ''HTTP/1.1'',
             Header = [(''User-Agent'', ''go'')]\<rparr>", of "''GET''"]
    by simp
qed

text \<open>
  Claim C9. The debug lines of a call do not depend on the token held: two calls
  that differ only in the token of the client log the same lines, whatever
  the path.
\<close>

theorem debug_line_independent_of_token:
  "debugLines (calls (executeRequestBody e (c\<lparr>authToken := t1\<rparr>) w method path hs body)) =
   debugLines (calls (executeRequestBody e (c\<lparr>authToken := t2\<rparr>) w method path hs body))"
proof (cases "BuildNonJSONRequest e (client c) method path body")
  case (Inl err)
  then show ?thesis by (simp add: executeRequestBody_build_error)
next
  case (Inr req)
  show ?thesis
  proof (cases "hs = OtherHeaders")
    case True
    then show ?thesis using Inr by (simp add: executeRequestBody_assertion_panics)
  next
    case False
    have "\<And>t. debugLines (calls (executeRequestBody e (c\<lparr>authToken := t\<rparr>) w method path hs body))
        = (if Contains path ''/auth/'' then [] else [debugText req hs])"
      using Inr False by (simp add: executeRequestBody_built_text debugLines_logAndSend)
    then show ?thesis by simp
  qed
qed

subsection \<open>Construction of the client\<close>

text \<open>
  Claim C8. \<^verbatim>\<open>NewStorageClient\<close> returns the error of \<^verbatim>\<open>client.NewClient\<close> when
  the generic client cannot be built, the error of the first authentication when
  that fails, and otherwise the storage client as the authentication left it;
  a client is returned only after both steps succeeded, and never together with
  an error.
\<close>

theorem NewStorageClient_all_or_nothing:
  "(NewClient e cfg = Inl err \<longrightarrow> NewStorageClient e cfg w = (Inl err, w))
   \<and> (NewClient e cfg = Inr opcClient
        \<and> getAuthenticationToken e \<lparr>client = opcClient, authToken = None, tokenIssued = 0\<rparr> w
            = (Some err, sc, w') \<longrightarrow>
      NewStorageClient e cfg w = (Inl err, w'))
   \<and> (NewClient e cfg = Inr opcClient
        \<and> getAuthenticationToken e \<lparr>client = opcClient, authToken = None, tokenIssued = 0\<rparr> w
            = (None, sc, w') \<longrightarrow>
      NewStorageClient e cfg w = (Inr sc, w'))
   \<and> (fst (NewStorageClient e cfg w) = Inr sc \<longrightarrow>
      (\<exists>built. NewClient e cfg = Inr built
         \<and> fst (getAuthenticationToken e \<lparr>client = built, authToken = None, tokenIssued = 0\<rparr> w)
             = None
         \<and> fst (snd (getAuthenticationToken e
               \<lparr>client = built, authToken = None, tokenIssued = 0\<rparr> w)) = sc))"
  by (auto simp: NewStorageClient_def Let_def split: sum.splits prod.splits option.splits)

theorem NewStorageClient_all_or_nothing_witness:
  "NewClient (sampleEnv True) [] = Inl (Error ''no identity domain'')
   \<and> NewStorageClient (sampleEnv True) [] 0 = (Inl (Error ''no identity domain''), 0)
   \<and> NewClient (sampleEnv False) ''dom'' = Inr \<lparr>IdentityDomain = Some ''dom'', UserName = Some ''user''\<rparr>
   \<and> NewStorageClient (sampleEnv False) ''dom'' 0 = (Inl (Error ''no token''), 0)
   \<and> NewStorageClient (sampleEnv True) ''dom'' 7 =
        (Inr \<lparr>client = \<lparr>IdentityDomain = Some ''dom'', UserName = Some ''user''\<rparr>,
              authToken = Some ''fresh'', tokenIssued = 7\<rparr>, 7)"
proof -
  let ?opc = "\<lparr>IdentityDomain = Some ''dom'', UserName = Some ''user''\<rparr>"
  let ?sc = "\<lparr>client = ?opc, authToken = Some ''fresh'', tokenIssued = 7\<rparr>"
  let ?z = "\<lparr>client = ?opc, authToken = None, tokenIssued = 0\<rparr>"
  have 1: "NewClient (sampleEnv True) [] = Inl (Error ''no identity domain'')"
    by (simp add: sampleEnv_def)
  have 2: "NewClient (sampleEnv False) ''dom'' = Inr ?opc
        \<and> getAuthenticationToken (sampleEnv False) ?z 0 = (Some (Error ''no token''), ?z, 0)"
    by (simp add: sampleEnv_def)
  have 3: "NewClient (sampleEnv True) ''dom'' = Inr ?opc
        \<and> getAuthenticationToken (sampleEnv True) ?z 7 = (None, ?sc, 7)"
    by (simp add: sampleEnv_def)
  show ?thesis
    using 1 2 3
      NewStorageClient_all_or_nothing [where e = "sampleEnv True" and cfg = "[]"
        and err = "Error ''no identity domain''" and w = 0]
      NewStorageClient_all_or_nothing [where e = "sampleEnv False" and cfg = "''dom''"
        and err = "Error ''no token''" and w = 0 and w' = 0 and opcClient = ?opc and sc = ?z]
      NewStorageClient_all_or_nothing [where e = "sampleEnv True" and cfg = "''dom''"
        and w = 7 and w' = 7 and opcClient = ?opc and sc = ?sc]
    by simp
qed

subsection \<open>The type assertion on the headers\<close>

text \<open>
  Claim C10 as it is written fails where the request cannot be built: the
  headers are of another type, and the call returns the error of
  \<^verbatim>\<open>BuildNonJSONRequest\<close> without a panic.
\<close>

theorem type_assertion_counterexample:
  "returned (executeRequestBody (sampleEnv True) client0 (minutes 30)
      ''BAD METHOD'' ''/v1/x'' OtherHeaders None) = Ret (Inl (Error ''invalid method''))"
  by (simp add: sample_defs run_defs)

text \<open>
  Claim C10, as amended. With headers that are neither nil nor a
  \<^verbatim>\<open>map[string]string\<close>, a call whose request was built panics having made no
  call, so before any request is executed, and leaves the storage client and
  the world as they were; a call whose request cannot be built returns that
  error.
\<close>

theorem type_assertion_panics:
  "(BuildNonJSONRequest e (client c) method path body = Inr req \<longrightarrow>
      executeRequestBody e c w method path OtherHeaders body =
        \<lparr>returned = Panic, storage = c, world = w, calls = []\<rparr>)
   \<and> (BuildNonJSONRequest e (client c) method path body = Inl err \<longrightarrow>
      executeRequestBody e c w method path OtherHeaders body =
        \<lparr>returned = Ret (Inl err), storage = c, world = w, calls = []\<rparr>)"
  by (simp add: executeRequestBody_def addHeaders_def)

theorem type_assertion_panics_witness:
  "BuildNonJSONRequest (sampleEnv True) (client client1) ''GET'' ''/v1/x'' None =
        Inr \<lparr>Method = ''GET'', URL = ''https://storage/v1/x'', Proto = ''HTTP/1.1'',
             Header = [(''User-Agent'', ''go'')]\<rparr>
   \<and> executeRequestBody (sampleEnv True) client1 (minutes 30) ''GET'' ''/v1/x'' OtherHeaders None =
        \<lparr>returned = Panic, storage = client1, world = minutes 30, calls = []\<rparr>
   \<and> BuildNonJSONRequest (sampleEnv True) (client client1) ''BAD METHOD'' ''/v1/x'' None =
        Inl (Error ''invalid method'')
   \<and> executeRequestBody (sampleEnv True) client1 (minutes 30) ''BAD METHOD'' ''/v1/x''
        OtherHeaders None =
        \<lparr>returned = Ret (Inl (Error ''invalid method'')), storage = client1,
         world = minutes 30, calls = []\<rparr>"
proof -
  have 1: "BuildNonJSONRequest (sampleEnv True) (client client1) ''GET'' ''/v1/x'' None =
        Inr \<lparr>Method = ''GET'', URL = ''https://storage/v1/x'', Proto = ''HTTP/1.1'',
             Header = [(''User-Agent'', ''go'')]\<rparr>"
    by (simp add: sample_defs)
  have 2: "BuildNonJSONRequest (sampleEnv True) (client client1) ''BAD METHOD'' ''/v1/x'' None =
        Inl (Error ''invalid method'')"
    by (simp add: sample_defs)
  show ?thesis
    using 1 2
      type_assertion_panics [where e = "sampleEnv True" and c = client1 and w = "minutes 30" and path = "''/v1/x''" and body = None
        and req = "\<lparr>Method = ''GET'', URL = ''https://storage/v1/x'', Proto = ''HTTP/1.1'',
             Header = [(''User-Agent'', ''go'')]\<rparr>", of "''GET''"]
      type_assertion_panics [where e = "sampleEnv True" and c = client1 and w = "minutes 30" and path = "''/v1/x''" and body = None
        and err = "Error ''invalid method''", of "''BAD METHOD''"]
    by simp
qed

end
